theory Spec2Isabelle
  imports Main "HOL-Library.Word"
begin

section \<open>The Python bindings of libCANopen (python/pycanopen/CANopen.py)\<close>

text \<open>
  The module is a thin ctypes wrapper: every operation converts its arguments, makes one
  call into a shared library (libcanopen.so, or libc for \<open>read\<close>) and turns the value
  returned by that call into a Python result or a raised exception. The shared library is
  not part of the module; it is a parameter of the model. The module is Python 2 code
  (integer \<open>/\<close>, \<open>ord\<close> on buffer elements, a list-comprehension variable read after the
  comprehension), and is modelled with Python 2 semantics.
\<close>

subsection \<open>ctypes structures\<close>

text \<open>\<open>class CANFrame(ct.Structure)\<close>\<close>

record CANFrame =
  can_id :: "32 word"
  can_dlc :: "8 word"
  align :: "8 word list"
  data :: "8 word list"

text \<open>
  \<open>class CANopenFrame(ct.Structure)\<close>. The fields \<open>type\<close>, \<open>id\<close> and \<open>data\<close> carry a
  prime, since the plain names are taken.
\<close>

record CANopenFrame =
  rtr :: "8 word"
  function_code :: "8 word"
  type' :: "8 word"
  id' :: "32 word"
  data' :: "8 word list"
  data_len :: "8 word"

text \<open>\<open>CANFrame()\<close> and \<open>CANopenFrame()\<close>: ctypes zero-initialises a new structure.\<close>

definition new_CANFrame :: CANFrame where
  "new_CANFrame = \<lparr>can_id = 0, can_dlc = 0, align = replicate 3 0, data = replicate 8 0\<rparr>"

definition new_CANopenFrame :: CANopenFrame where
  "new_CANopenFrame =
     \<lparr>rtr = 0, function_code = 0, type' = 0, id' = 0, data' = replicate 8 0, data_len = 0\<rparr>"

subsection \<open>Exceptions\<close>

text \<open>
  The eight exception classes of the module, each with the attributes its constructor
  stores, and the built-in exceptions the interpreter itself raises in these functions.
\<close>

datatype exn =
    CANframeReadException string int
  | CANframeWriteException string int
  | CANSocketNotConnectedException string "int option"
  | CANopenFrameParseException string
  | CANframeParseException string
  | CANopenSDOUploadException string
  | CANopenSDODownloadException string
  | CANNothingToReadException string
  | AttributeError string
  | ValueError
  | IndexError
  | UnboundLocalError string

subsection \<open>The foreign libraries\<close>

text \<open>
  A call into libcanopen or libc, with the arguments as ctypes passes them: the socket is
  the Python object \<open>self.sock\<close> (\<open>None\<close> or an integer), \<open>c_uint8\<close>, \<open>c_uint16\<close> and
  \<open>c_uint32\<close> values are words, a string buffer is its bytes.
\<close>

datatype native_call =
    can_socket_open string
  | can_socket_close "int option"
  | libc_read "int option" int
  | canopen_frame_parse CANFrame
  | canopen_sdo_upload_exp "int option" "8 word" "16 word" "8 word"
  | canopen_sdo_download_exp "int option" "8 word" "16 word" "8 word" "32 word" "16 word"
  | canopen_sdo_upload_seg "int option" "8 word" "16 word" "8 word" "8 word list" "16 word"
  | canopen_sdo_download_seg "int option" "8 word" "16 word" "8 word" "8 word list" "16 word"
  | canopen_sdo_upload_block "int option" "8 word" "16 word" "8 word" "8 word list" "16 word"
  | canopen_sdo_download_block "int option" "8 word" "16 word" "8 word" "8 word list" "16 word"

text \<open>
  What a foreign call leaves behind: the returned C \<open>int\<close> (\<open>ret\<close>), the value
  \<open>ct.get_errno()\<close> reads after the call (\<open>errno\<close>), and what the callee wrote through
  the pointers it was given: a \<open>uint32\<close> (\<open>out_u32\<close>), bytes at the start of a buffer
  (\<open>out_bytes\<close>), a CAN frame (\<open>out_can\<close>), a CANopen frame (\<open>out_canopen\<close>). A call
  uses only the components that belong to it.
\<close>

record reply =
  ret :: int
  errno :: int
  out_u32 :: "32 word"
  out_bytes :: "8 word list"
  out_can :: CANFrame
  out_canopen :: CANopenFrame

type_synonym native = "native_call \<Rightarrow> reply"

text \<open>
  \<open>class CANopen\<close>: the attribute \<open>sock\<close>, and the foreign calls made so far, oldest
  first, so that a claim can say which calls an operation makes.
\<close>

record CANopen =
  sock :: "int option"
  trace :: "native_call list"

definition call :: "native \<Rightarrow> native_call \<Rightarrow> CANopen \<Rightarrow> reply \<times> CANopen" where
  "call N c self = (N c, self\<lparr>trace := trace self @ [c]\<rparr>)"

subsection \<open>Python and ctypes primitives\<close>

text \<open>\<open>errno.EAGAIN\<close> and \<open>errno.EWOULDBLOCK\<close> on Linux (the module loads libc.so.6).\<close>

definition EAGAIN :: int where
  "EAGAIN = 11"

definition EWOULDBLOCK :: int where
  "EWOULDBLOCK = 11"

text \<open>Truth value of \<open>self.sock\<close>: \<open>None\<close> and \<open>0\<close> are false.\<close>

definition truthy :: "int option \<Rightarrow> bool" where
  "truthy s = (case s of None \<Rightarrow> False | Some v \<Rightarrow> v \<noteq> 0)"

text \<open>\<open>ct.c_uint8(x)\<close>, \<open>ct.c_uint16(x)\<close>, \<open>ct.c_uint32(x)\<close>: ctypes reduces modulo the width.\<close>

definition c_uint8 :: "int \<Rightarrow> 8 word" where
  "c_uint8 x = word_of_int x"

definition c_uint16 :: "int \<Rightarrow> 16 word" where
  "c_uint16 x = word_of_int x"

definition c_uint32 :: "int \<Rightarrow> 32 word" where
  "c_uint32 x = word_of_int x"

text \<open>
  Attribute access on a \<open>c_uint32\<close> object: its data attribute is \<open>value\<close>; any other
  public name raises AttributeError.
\<close>

definition c_uint32_getattr :: "32 word \<Rightarrow> string \<Rightarrow> exn + int" where
  "c_uint32_getattr w name = (if name = ''value'' then Inr (uint w) else Inl (AttributeError name))"

text \<open>\<open>str(i)\<close>, as \<open>"%s" % i\<close> formats an integer.\<close>

fun str_nat :: "nat \<Rightarrow> string" where
  "str_nat n =
     (if n < 10 then [''0123456789'' ! n]
      else str_nat (n div 10) @ [''0123456789'' ! (n mod 10)])"

declare str_nat.simps [simp del]

definition str_int :: "int \<Rightarrow> string" where
  "str_int i = (if i < 0 then CHR ''-'' # str_nat (nat (- i)) else str_nat (nat i))"

text \<open>\<open>"%.2x" % ord(d)\<close>: two lower-case hexadecimal digits.\<close>

definition hex2 :: "8 word \<Rightarrow> string" where
  "hex2 w = [''0123456789abcdef'' ! (unat w div 16), ''0123456789abcdef'' ! (unat w mod 16)]"

text \<open>\<open>s[i:j]\<close> for \<open>0 \<le> i \<le> j\<close>, and \<open>s[0:-2]\<close>.\<close>

definition slice :: "'a list \<Rightarrow> nat \<Rightarrow> nat \<Rightarrow> 'a list" where
  "slice s i j = take (j - i) (drop i s)"

definition slice_0_neg2 :: "'a list \<Rightarrow> 'a list" where
  "slice_0_neg2 s = take (length s - 2) s"

text \<open>
  \<open>int(s, 16)\<close> on a Python 2 byte string, for the slices of at most two characters this
  module passes: white space, an optional sign, white space again, an optional \<open>0x\<close>
  that a digit follows, one or more digits, white space; a NUL byte is rejected.
  \<open>digit_value\<close> is the interpreter's digit table (37 for a character that is no digit).
\<close>

definition digit_value :: "char \<Rightarrow> nat" where
  "digit_value c = (let k = (of_char c :: nat) in
     if 48 \<le> k \<and> k \<le> 57 then k - 48
     else if 97 \<le> k \<and> k \<le> 122 then k - 87
     else if 65 \<le> k \<and> k \<le> 90 then k - 55
     else 37)"

definition isspace :: "char \<Rightarrow> bool" where
  "isspace c = (let k = (of_char c :: nat) in k = 32 \<or> (9 \<le> k \<and> k \<le> 13))"

definition is_hex :: "char \<Rightarrow> bool" where
  "is_hex c = (digit_value c < 16)"

definition py_int16 :: "string \<Rightarrow> exn + int" where
  "py_int16 s =
     (if CHR 0x00 \<in> set s then Inl ValueError
      else
        let t = dropWhile isspace s;
            neg = (case t of [] \<Rightarrow> False | c # _ \<Rightarrow> c = CHR ''-'');
            u = (case t of [] \<Rightarrow> []
                 | c # r \<Rightarrow> if c = CHR ''+'' \<or> c = CHR ''-'' then r else t);
            v = dropWhile isspace u;
            w = (case v of
                   a # b # c # r \<Rightarrow>
                     if a = CHR ''0'' \<and> (b = CHR ''x'' \<or> b = CHR ''X'') \<and> is_hex c
                     then c # r else v
                 | _ \<Rightarrow> v);
            ds = takeWhile is_hex w;
            rest = dropWhile isspace (dropWhile is_hex w)
        in if ds = [] then Inl ValueError
           else if rest = []
           then Inr ((if neg then - 1 else 1) * int (foldl (\<lambda>a c. 16 * a + digit_value c) 0 ds))
           else Inl ValueError)"

text \<open>\<open>chr(v)\<close>: a byte for \<open>0 \<le> v < 256\<close>, ValueError otherwise.\<close>

definition py_chr :: "int \<Rightarrow> exn + 8 word" where
  "py_chr v = (if 0 \<le> v \<and> v < 256 then Inr (word_of_int v) else Inl ValueError)"

text \<open>
  \<open>ct.create_string_buffer(size)\<close> with an integer: \<open>size\<close> zero bytes, ValueError for a
  negative size. \<open>ct.create_string_buffer(s)\<close> with a string: its bytes and a final NUL.
\<close>

definition create_string_buffer :: "int \<Rightarrow> exn + 8 word list" where
  "create_string_buffer n = (if n < 0 then Inl ValueError else Inr (replicate (nat n) 0))"

definition create_string_buffer_str :: "8 word list \<Rightarrow> 8 word list" where
  "create_string_buffer_str s = s @ [0]"

text \<open>
  The buffer after a foreign call that wrote \<open>ws\<close> at its start: the length of the buffer
  does not change.
\<close>

definition store :: "8 word list \<Rightarrow> 8 word list \<Rightarrow> 8 word list" where
  "store buf ws = take (length buf) ws @ drop (length ws) buf"

text \<open>A list comprehension whose element expression may raise.\<close>

fun map_exn :: "('a \<Rightarrow> exn + 'b) \<Rightarrow> 'a list \<Rightarrow> exn + 'b list" where
  "map_exn f [] = Inr []"
| "map_exn f (x # xs) =
     (case f x of
        Inl e \<Rightarrow> Inl e
      | Inr y \<Rightarrow> (case map_exn f xs of Inl e \<Rightarrow> Inl e | Inr ys \<Rightarrow> Inr (y # ys)))"

text \<open>
  \<open>[chr(int(str_data[2*n:2*n+2], 16)) for n in range(m)]\<close>. In Python 2 the variable
  \<open>n\<close> of the comprehension is a local variable of the enclosing function: it is unbound
  (\<open>None\<close> here) until the first iteration and keeps the last index afterwards. The
  result is the list of bytes and the final binding of \<open>n\<close>.
\<close>

fun comprehension :: "string \<Rightarrow> nat list \<Rightarrow> nat option \<Rightarrow> exn + (8 word list \<times> nat option)" where
  "comprehension str_data [] n = Inr ([], n)"
| "comprehension str_data (i # is) n =
     (case py_int16 (slice str_data (2 * i) (2 * i + 2)) of
        Inl e \<Rightarrow> Inl e
      | Inr v \<Rightarrow>
          (case py_chr v of
             Inl e \<Rightarrow> Inl e
           | Inr c \<Rightarrow>
               (case comprehension str_data is (Some i) of
                  Inl e \<Rightarrow> Inl e
                | Inr (cs, n') \<Rightarrow> Inr (c # cs, n'))))"

subsection \<open>class CANopen: socket handling and frame reading\<close>

definition init :: "native \<Rightarrow> string \<Rightarrow> CANopen" where
  "init N interface =
     (let (r, self) = call N (can_socket_open interface) \<lparr>sock = None, trace = []\<rparr>
      in self\<lparr>sock := Some (ret r)\<rparr>)"

definition close :: "native \<Rightarrow> CANopen \<Rightarrow> CANopen" where
  "close N self =
     (if truthy (sock self)
      then (let (r, self') = call N (can_socket_close (sock self)) self
            in self'\<lparr>sock := None\<rparr>)
      else self)"

definition open' :: "native \<Rightarrow> CANopen \<Rightarrow> string \<Rightarrow> CANopen" where
  "open' N self interface =
     (let self1 = (if truthy (sock self) then close N self else self);
          (r, self2) = call N (can_socket_open interface) self1
      in self2\<lparr>sock := Some (ret r)\<rparr>)"

definition read_can_frame :: "native \<Rightarrow> CANopen \<Rightarrow> (exn + CANFrame) \<times> CANopen" where
  "read_can_frame N self =
     (if truthy (sock self)
      then (let (r, self') = call N (libc_read (sock self) 16) self
            in if ret r = 16 then (Inr (out_can r), self')
               else if errno r = EAGAIN \<or> errno r = EWOULDBLOCK
               then (Inl (CANNothingToReadException []), self')
               else (Inl (CANframeReadException [] 0), self'))
      else (Inl (CANSocketNotConnectedException [] (sock self)), self))"

definition parse_can_frame :: "native \<Rightarrow> CANopen \<Rightarrow> CANFrame \<Rightarrow> (exn + CANopenFrame) \<times> CANopen" where
  "parse_can_frame N self can_frame =
     (let (r, self') = call N (canopen_frame_parse can_frame) self
      in if ret r = 0 then (Inr (out_canopen r), self')
         else (Inl (CANopenFrameParseException []), self'))"

text \<open>
  \<open>read_frame\<close>: the tests \<open>if not can_frame\<close> and \<open>if not canopen_frame\<close> never fire, a
  ctypes structure being true as a condition.
\<close>

definition read_frame :: "native \<Rightarrow> CANopen \<Rightarrow> (exn + CANopenFrame) \<times> CANopen" where
  "read_frame N self =
     (case read_can_frame N self of
        (Inl e, self') \<Rightarrow> (Inl e, self')
      | (Inr can_frame, self') \<Rightarrow> parse_can_frame N self' can_frame)"

subsection \<open>SDO operations\<close>

text \<open>
  The parameter \<open>size\<close> of the source is \<open>size'\<close> here, the parameter \<open>data\<close> of
  \<open>SDODownloadExp\<close> is \<open>data32\<close> and the local buffer \<open>data\<close> is \<open>buf\<close>. A function
  that ends without \<open>return\<close> yields \<open>None\<close>, the unit value here.
\<close>

definition SDOUploadExp ::
  "native \<Rightarrow> CANopen \<Rightarrow> int \<Rightarrow> int \<Rightarrow> int \<Rightarrow> (exn + int) \<times> CANopen" where
  "SDOUploadExp N self node index subindex =
     (let (r, self') =
            call N (canopen_sdo_upload_exp (sock self) (c_uint8 node) (c_uint16 index)
                      (c_uint8 subindex)) self;
          res = out_u32 r
      in if ret r \<noteq> 0
         then (if errno r = EAGAIN \<or> errno r = EWOULDBLOCK
               then (Inl (CANNothingToReadException ''Did not get reply''), self')
               else (Inl (CANopenSDOUploadException
                            (''Expediated Upload returns '' @ str_int (ret r))), self'))
         else (c_uint32_getattr res ''msg'', self'))"

definition SDODownloadExp ::
  "native \<Rightarrow> CANopen \<Rightarrow> int \<Rightarrow> int \<Rightarrow> int \<Rightarrow> int \<Rightarrow> int \<Rightarrow> (exn + unit) \<times> CANopen" where
  "SDODownloadExp N self node index subindex data32 size' =
     (let (r, self') =
            call N (canopen_sdo_download_exp (sock self) (c_uint8 node) (c_uint16 index)
                      (c_uint8 subindex) (c_uint32 data32) (c_uint16 size')) self
      in if ret r \<noteq> 0
         then (if errno r = EAGAIN \<or> errno r = EWOULDBLOCK
               then (Inl (CANNothingToReadException ''Did not get reply''), self')
               else (Inl (CANopenSDOUploadException ''Expediated Download error undefined''),
                     self'))
         else (Inr (), self'))"

definition SDOUploadSeg ::
  "native \<Rightarrow> CANopen \<Rightarrow> int \<Rightarrow> int \<Rightarrow> int \<Rightarrow> int \<Rightarrow> (exn + string) \<times> CANopen" where
  "SDOUploadSeg N self node index subindex size' =
     (case create_string_buffer size' of
        Inl e \<Rightarrow> (Inl e, self)
      | Inr buf0 \<Rightarrow>
          (let (r, self') =
                 call N (canopen_sdo_upload_seg (sock self) (c_uint8 node) (c_uint16 index)
                           (c_uint8 subindex) buf0 (c_uint16 size')) self;
               buf = store buf0 (out_bytes r)
           in if ret r < 0
              then (Inl (CANopenSDOUploadException
                           (''Segmented Upload returns '' @ str_int (ret r))), self')
              else (case map_exn (\<lambda>i. if i < length buf then Inr (hex2 (buf ! i))
                                        else Inl IndexError) [0 ..< nat (ret r)] of
                      Inl e \<Rightarrow> (Inl e, self')
                    | Inr hs \<Rightarrow> (Inr (concat hs), self'))))"

definition SDODownloadSeg ::
  "native \<Rightarrow> CANopen \<Rightarrow> int \<Rightarrow> int \<Rightarrow> int \<Rightarrow> string \<Rightarrow> int \<Rightarrow> (exn + unit) \<times> CANopen" where
  "SDODownloadSeg N self node index subindex str_data size' =
     (let m = length str_data div 2
      in case comprehension str_data [0 ..< m] None of
           Inl e \<Rightarrow> (Inl e, self)
         | Inr (cs, n) \<Rightarrow>
             (let buf = create_string_buffer_str cs
              in case n of
                   None \<Rightarrow> (Inl (UnboundLocalError ''n''), self)
                 | Some nv \<Rightarrow>
                     (let (r, self') =
                            call N (canopen_sdo_download_seg (sock self) (c_uint8 node)
                                      (c_uint16 index) (c_uint8 subindex) buf
                                      (c_uint16 (int nv))) self
                      in if ret r \<noteq> 0
                         then (Inl (CANopenSDOUploadException
                                      (''Segmented Download returns '' @ str_int (ret r))),
                               self')
                         else (Inr (), self'))))"

definition SDOUploadBlock ::
  "native \<Rightarrow> CANopen \<Rightarrow> int \<Rightarrow> int \<Rightarrow> int \<Rightarrow> int \<Rightarrow> (exn + string) \<times> CANopen" where
  "SDOUploadBlock N self node index subindex size' =
     (case create_string_buffer size' of
        Inl e \<Rightarrow> (Inl e, self)
      | Inr buf0 \<Rightarrow>
          (let (r, self') =
                 call N (canopen_sdo_upload_block (sock self) (c_uint8 node) (c_uint16 index)
                           (c_uint8 subindex) buf0 (c_uint16 size')) self;
               buf = store buf0 (out_bytes r)
           in if ret r \<noteq> 0
              then (Inl (CANopenSDOUploadException
                           (''Block Upload returns '' @ str_int (ret r))), self')
              else (Inr (slice_0_neg2 (concat (map hex2 buf))), self')))"

definition SDODownloadBlock ::
  "native \<Rightarrow> CANopen \<Rightarrow> int \<Rightarrow> int \<Rightarrow> int \<Rightarrow> string \<Rightarrow> int \<Rightarrow> (exn + unit) \<times> CANopen" where
  "SDODownloadBlock N self node index subindex str_data size' =
     (let m = length str_data div 2
      in case comprehension str_data [0 ..< m] None of
           Inl e \<Rightarrow> (Inl e, self)
         | Inr (cs, n) \<Rightarrow>
             (let buf = create_string_buffer_str cs
              in case n of
                   None \<Rightarrow> (Inl (UnboundLocalError ''n''), self)
                 | Some nv \<Rightarrow>
                     (let (r, self') =
                            call N (canopen_sdo_download_block (sock self) (c_uint8 node)
                                      (c_uint16 index) (c_uint8 subindex) buf
                                      (c_uint16 (int nv + 1))) self
                      in if ret r \<noteq> 0
                         then (Inl (CANopenSDOUploadException
                                      (''Block Download returns '' @ str_int (ret r))),
                               self')
                         else (Inr (), self'))))"

subsection \<open>Sample values\<close>

text \<open>
  A fresh instance with socket 3, and a foreign library that answers every call with the
  same reply; the concrete instances of the theorems below use them.
\<close>

definition self0 :: CANopen where
  "self0 = \<lparr>sock = Some 3, trace = []\<rparr>"

definition reply_with :: "int \<Rightarrow> int \<Rightarrow> reply" where
  "reply_with rv en =
     \<lparr>ret = rv, errno = en, out_u32 = 0x12345678, out_bytes = [0xAB, 0xCD],
      out_can = new_CANFrame, out_canopen = new_CANopenFrame\<rparr>"

definition always :: "int \<Rightarrow> int \<Rightarrow> native" where
  "always rv en = (\<lambda>c. reply_with rv en)"

subsection \<open>Notions used to state the properties\<close>

text \<open>
  The byte that two hexadecimal digits at positions \<open>2 * i\<close> and \<open>2 * i + 1\<close> stand for,
  and the size argument (the last one) of an SDO call.
\<close>

definition byte_at :: "string \<Rightarrow> nat \<Rightarrow> 8 word" where
  "byte_at s i = word_of_nat (16 * digit_value (s ! (2 * i)) + digit_value (s ! (2 * i + 1)))"

fun size_arg :: "native_call \<Rightarrow> 16 word" where
  "size_arg (canopen_sdo_download_exp s n i si d sz) = sz"
| "size_arg (canopen_sdo_upload_seg s n i si b sz) = sz"
| "size_arg (canopen_sdo_download_seg s n i si b sz) = sz"
| "size_arg (canopen_sdo_upload_block s n i si b sz) = sz"
| "size_arg (canopen_sdo_download_block s n i si b sz) = sz"
| "size_arg _ = 0"

text \<open>
  The foreign calls that the two string downloads make for a string of hexadecimal
  digits, as \<open>SDODownloadSeg_hex\<close> and \<open>SDODownloadBlock_hex\<close> below establish.
\<close>

definition seg_call :: "CANopen \<Rightarrow> int \<Rightarrow> int \<Rightarrow> int \<Rightarrow> string \<Rightarrow> native_call" where
  "seg_call self node index subindex s =
     canopen_sdo_download_seg (sock self) (c_uint8 node) (c_uint16 index) (c_uint8 subindex)
       (map (byte_at s) [0 ..< length s div 2] @ [0]) (c_uint16 (int (length s div 2 - 1)))"

definition block_call :: "CANopen \<Rightarrow> int \<Rightarrow> int \<Rightarrow> int \<Rightarrow> string \<Rightarrow> native_call" where
  "block_call self node index subindex s =
     canopen_sdo_download_block (sock self) (c_uint8 node) (c_uint16 index) (c_uint8 subindex)
       (map (byte_at s) [0 ..< length s div 2] @ [0]) (c_uint16 (int (length s div 2 - 1) + 1))"

section \<open>Properties\<close>

subsection \<open>Socket handling and frame reading\<close>

lemma close_twice: "close N (close N self) = close N self"
  by (simp add: close_def call_def truthy_def)

text \<open>
  C6. On a connected socket (\<open>self.sock\<close> is true), when the read does not return 16:
  \<open>read_can_frame\<close> raises CANNothingToReadException if errno is EAGAIN or EWOULDBLOCK
  and CANframeReadException for any other errno; the two exceptions are different, and
  the one foreign call made is the read of 16 bytes.
\<close>

theorem read_can_frame_short_read:
  assumes "truthy (sock self)"
    and "ret (N (libc_read (sock self) 16)) \<noteq> 16"
  shows "fst (read_can_frame N self) =
           (if errno (N (libc_read (sock self) 16)) = EAGAIN
               \<or> errno (N (libc_read (sock self) 16)) = EWOULDBLOCK
            then Inl (CANNothingToReadException [])
            else Inl (CANframeReadException [] 0))
         \<and> CANNothingToReadException [] \<noteq> CANframeReadException [] 0
         \<and> trace (snd (read_can_frame N self)) = trace self @ [libc_read (sock self) 16]"
  using assms by (simp add: read_can_frame_def call_def)

theorem read_can_frame_short_read_witness:
  "fst (read_can_frame (always (- 1) 11) self0) = Inl (CANNothingToReadException [])
   \<and> fst (read_can_frame (always (- 1) 5) self0) = Inl (CANframeReadException [] 0)"
proof -
  have t: "truthy (sock self0)" by (simp add: self0_def truthy_def)
  have a: "ret (always (- 1) 11 (libc_read (sock self0) 16)) \<noteq> 16"
    by (simp add: always_def reply_with_def)
  have b: "ret (always (- 1) 5 (libc_read (sock self0) 16)) \<noteq> 16"
    by (simp add: always_def reply_with_def)
  show ?thesis
    using read_can_frame_short_read [where self = self0 and N = "always (- 1) 11", OF t a]
      read_can_frame_short_read [where self = self0 and N = "always (- 1) 5", OF t b]
    by (simp add: always_def reply_with_def EAGAIN_def EWOULDBLOCK_def)
qed

text \<open>
  C10. When \<open>self.sock\<close> is false (\<open>None\<close>, as \<open>close\<close> leaves it, or 0):
  \<open>read_can_frame\<close> raises CANSocketNotConnectedException carrying the socket value and
  leaves the instance, with its record of foreign calls, as it was, so no read is made;
  \<open>close\<close> leaves the instance as it was, so no foreign close is made; hence closing
  a second time changes nothing.
\<close>

theorem unconnected_socket:
  assumes "\<not> truthy (sock self)"
  shows "read_can_frame N self = (Inl (CANSocketNotConnectedException [] (sock self)), self)
         \<and> close N self = self
         \<and> close N (close N self) = close N self"
  using assms by (simp add: read_can_frame_def close_def)

theorem unconnected_socket_witness:
  "read_can_frame (always 16 0) (close (always 0 0) self0)
     = (Inl (CANSocketNotConnectedException [] None), close (always 0 0) self0)
   \<and> close (always 0 0) (close (always 0 0) self0) = close (always 0 0) self0
   \<and> trace (close (always 0 0) (close (always 0 0) self0)) = [can_socket_close (Some 3)]"
proof -
  have c: "close (always 0 0) self0 = \<lparr>sock = None, trace = [can_socket_close (Some 3)]\<rparr>"
    by (simp add: close_def call_def truthy_def self0_def)
  have f: "\<not> truthy (sock (close (always 0 0) self0))"
    by (simp add: c truthy_def)
  show ?thesis
    using unconnected_socket [where self = "close (always 0 0) self0" and N = "always 16 0", OF f]
      unconnected_socket [where self = "close (always 0 0) self0" and N = "always 0 0", OF f]
    by (simp add: c)
qed

subsection \<open>Decoding a string of hexadecimal digits\<close>

lemma is_hex_facts:
  assumes "is_hex c"
  shows "\<not> isspace c" "c \<noteq> CHR ''+''" "c \<noteq> CHR ''-''" "c \<noteq> CHR 0x00" "digit_value c < 16"
  using assms by (auto simp: is_hex_def digit_value_def isspace_def Let_def split: if_splits)

lemma no_nul_two:
  assumes a: "is_hex a" and b: "is_hex b"
  shows "CHR 0x00 \<notin> set [a, b]"
    using is_hex_facts(4) [OF a] is_hex_facts(4) [OF b] by auto

lemma no_space_two:
  assumes a: "is_hex a" and b: "is_hex b"
  shows "dropWhile isspace [a, b] = [a, b]"
    using is_hex_facts(1) [OF a] by simp

lemma all_digits_two:
  assumes a: "is_hex a" and b: "is_hex b"
  shows "takeWhile is_hex [a, b] = [a, b]" "dropWhile is_hex [a, b] = []"
    using a b by simp_all

lemma py_int16_two_digits:
  assumes a: "is_hex a" and b: "is_hex b"
  shows "py_int16 [a, b] = Inr (int (16 * digit_value a + digit_value b))"
proof -
  have sg: "(a = CHR ''+'') = False" "(a = CHR ''-'') = False"
    using is_hex_facts(2,3) [OF a] by simp_all
  show ?thesis
  unfolding py_int16_def
  apply (subst if_not_P [OF no_nul_two [OF a b]])
  apply (unfold Let_def)
  apply (simp only: no_space_two [OF a b])
  apply (simp only: list.case)
  apply (simp only: sg if_False simp_thms)
  apply (simp only: dropWhile.simps is_hex_facts(1) [OF a] if_False)
  apply (simp only: list.case)
  apply (simp only: all_digits_two [OF a b])
  apply (simp only: dropWhile.simps)
  apply (simp add: list.distinct)
  done
qed

lemma slice_pair:
  assumes "2 * i + 2 \<le> length s"
  shows "slice s (2 * i) (2 * i + 2) = [s ! (2 * i), s ! (2 * i + 1)]"
proof -
  have "take 2 (drop (2 * i) s) = [s ! (2 * i), s ! (2 * i + 1)]"
    using assms
    by (simp add: numeral_2_eq_2 take_Suc_conv_app_nth hd_drop_conv_nth take_Suc add.commute)
  then show ?thesis by (simp add: slice_def)
qed

lemma py_chr_byte:
  assumes "is_hex a" "is_hex b"
  shows "py_chr (int (16 * digit_value a + digit_value b))
           = Inr (word_of_nat (16 * digit_value a + digit_value b))"
proof -
  have "16 * digit_value a + digit_value b < 256"
    using is_hex_facts(5) [OF assms(1)] is_hex_facts(5) [OF assms(2)] by arith
  then show ?thesis by (simp add: py_chr_def)
qed

lemma comprehension_hex:
  assumes "list_all is_hex s"
  shows "list_all (\<lambda>i. 2 * i + 2 \<le> length s) js \<Longrightarrow>
         comprehension s js n = Inr (map (byte_at s) js, if js = [] then n else Some (last js))"
proof (induction js arbitrary: n)
  case Nil
  then show ?case by simp
next
  case (Cons i js)
  have len: "2 * i + 2 \<le> length s" using Cons.prems by simp
  have a: "is_hex (s ! (2 * i))" and b: "is_hex (s ! (2 * i + 1))"
    using assms len by (simp_all add: list_all_length)
  have rest: "comprehension s js (Some i)
                = Inr (map (byte_at s) js, if js = [] then Some i else Some (last js))"
    using Cons.IH [of "Some i"] Cons.prems by simp
  have "comprehension s (i # js) n
          = Inr (byte_at s i # map (byte_at s) js, if js = [] then Some i else Some (last js))"
    by (simp only: comprehension.simps slice_pair [OF len] py_int16_two_digits [OF a b]
        py_chr_byte [OF a b] rest sum.case prod.case byte_at_def)
  then show ?case by simp
qed

lemma comprehension_range:
  assumes "list_all is_hex s"
  shows "comprehension s [0 ..< length s div 2] None
           = Inr (map (byte_at s) [0 ..< length s div 2],
                  if length s div 2 = 0 then None else Some (length s div 2 - 1))"
proof -
  have "list_all (\<lambda>i. 2 * i + 2 \<le> length s) [0 ..< length s div 2]"
    by (auto simp: list_all_iff)
  from comprehension_hex [OF assms this, of None] show ?thesis
    by (cases "length s div 2 = 0") (simp_all add: last_upt)
qed

lemma if_chain_error:
  "(if A then Inl ValueError
    else if B then Inl ValueError else if C then Inr x else Inl ValueError) = Inl e
   \<Longrightarrow> e = ValueError"
  by (simp split: if_splits)

lemma py_int16_error: "py_int16 s = Inl e \<Longrightarrow> e = ValueError"
  unfolding py_int16_def Let_def by (rule if_chain_error)

lemma py_chr_error: "py_chr v = Inl e \<Longrightarrow> e = ValueError"
  by (simp add: py_chr_def split: if_splits)

lemma comprehension_error: "comprehension s js n = Inl e \<Longrightarrow> e = ValueError"
proof (induction js arbitrary: n e)
  case Nil
  then show ?case by simp
next
  case (Cons i js)
  show ?case
  proof (cases "py_int16 (slice s (2 * i) (2 * i + 2))")
    case (Inl e1)
    with Cons.prems have "e = e1" by simp
    with py_int16_error [OF Inl] show ?thesis by simp
  next
    case (Inr v)
    note v = this
    show ?thesis
    proof (cases "py_chr v")
      case (Inl e2)
      with Cons.prems v have "e = e2" by simp
      with py_chr_error [OF Inl] show ?thesis by simp
    next
      case (Inr c)
      note c = this
      show ?thesis
      proof (cases "comprehension s js (Some i)")
        case (Inl e3)
        with Cons.prems v c have "e = e3" by simp
        with Cons.IH [OF Inl] show ?thesis by simp
      next
        case (Inr p)
        with Cons.prems v c show ?thesis by (simp split: prod.splits)
      qed
    qed
  qed
qed

subsection \<open>The string downloads on hexadecimal strings\<close>

lemma SDODownloadSeg_hex:
  assumes "list_all is_hex s" and "2 \<le> length s"
  shows "SDODownloadSeg N self node index subindex s size' =
           (if ret (N (seg_call self node index subindex s)) \<noteq> 0
            then Inl (CANopenSDOUploadException
                   (''Segmented Download returns ''
                      @ str_int (ret (N (seg_call self node index subindex s)))))
            else Inr (),
            self\<lparr>trace := trace self @ [seg_call self node index subindex s]\<rparr>)"
proof -
  have m: "length s div 2 \<noteq> 0" using assms(2) by simp
  show ?thesis
    by (simp add: SDODownloadSeg_def comprehension_range [OF assms(1)] m call_def
        create_string_buffer_str_def seg_call_def)
qed

lemma SDODownloadBlock_hex:
  assumes "list_all is_hex s" and "2 \<le> length s"
  shows "SDODownloadBlock N self node index subindex s size' =
           (if ret (N (block_call self node index subindex s)) \<noteq> 0
            then Inl (CANopenSDOUploadException
                   (''Block Download returns ''
                      @ str_int (ret (N (block_call self node index subindex s)))))
            else Inr (),
            self\<lparr>trace := trace self @ [block_call self node index subindex s]\<rparr>)"
proof -
  have m: "length s div 2 \<noteq> 0" using assms(2) by simp
  show ?thesis
    by (simp add: SDODownloadBlock_def comprehension_range [OF assms(1)] m call_def
        create_string_buffer_str_def block_call_def)
qed

lemma unat_c_uint16_nat: "unat (c_uint16 (int n)) = n mod 65536"
  by (simp add: c_uint16_def unat_of_nat)

lemma unat_c_uint16_Suc: "unat (c_uint16 (int n + 1)) = (n + 1) mod 65536"
proof -
  have "int n + 1 = int (n + 1)" by simp
  then have "c_uint16 (int n + 1) = c_uint16 (int (n + 1))" by (simp only:)
  then show ?thesis by (simp only: unat_c_uint16_nat)
qed

lemma even_nonempty_length:
  assumes "s \<noteq> []" and "even (length s)"
  shows "2 \<le> length s"
proof -
  have "length s \<noteq> 0" using assms(1) by simp
  moreover have "length s \<noteq> 1" using assms(2) by auto
  ultimately show ?thesis by arith
qed

lemma is_hex_zero: "is_hex CHR ''0''"
  by (simp add: is_hex_def digit_value_def)

lemma zeros_hex: "list_all is_hex (replicate n CHR ''0'')"
  by (simp add: list_all_iff is_hex_zero)

lemma SDODownloadSeg_trace:
  assumes "list_all is_hex s" and "2 \<le> length s"
  shows "trace (snd (SDODownloadSeg N self node index subindex s size'))
           = trace self @ [seg_call self node index subindex s]"
  by (simp add: SDODownloadSeg_hex [OF assms])

lemma SDODownloadBlock_trace:
  assumes "list_all is_hex s" and "2 \<le> length s"
  shows "trace (snd (SDODownloadBlock N self node index subindex s size'))
           = trace self @ [block_call self node index subindex s]"
  by (simp add: SDODownloadBlock_hex [OF assms])

lemma size_arg_seg_call:
  "unat (size_arg (seg_call self node index subindex s)) = (length s div 2 - 1) mod 65536"
  by (simp only: seg_call_def size_arg.simps unat_c_uint16_nat)

lemma size_arg_block_call:
  assumes "2 \<le> length s"
  shows "unat (size_arg (block_call self node index subindex s)) = (length s div 2) mod 65536"
proof -
  have k: "length s div 2 - 1 + 1 = length s div 2" using assms by simp
  show ?thesis by (simp only: block_call_def size_arg.simps unat_c_uint16_Suc k)
qed

lemma hex_0aff: "list_all is_hex ''0aff''"
  by (simp add: is_hex_def digit_value_def)

text \<open>
  C3, as the claim states it, fails: for the 131072 digits \<open>0\<close>, a non-empty string of
  even length of hexadecimal digits that decodes to 65536 bytes, \<open>SDODownloadBlock\<close>
  passes the length argument 0, \<open>ct.c_uint16\<close> having reduced 65536 modulo 65536.
\<close>

theorem SDODownloadBlock_length_wraps:
  "replicate 131072 CHR ''0'' \<noteq> []
   \<and> even (length (replicate 131072 CHR ''0''))
   \<and> list_all is_hex (replicate 131072 CHR ''0'')
   \<and> length (replicate 131072 CHR ''0'') div 2 = 65536
   \<and> unat (size_arg (last (trace (snd (SDODownloadBlock (always 0 0) self0 1 4096 0
                                          (replicate 131072 CHR ''0'') 0))))) = 0"
proof -
  have len: "2 \<le> length (replicate 131072 CHR ''0'')" by simp
  have "unat (size_arg (last (trace (snd (SDODownloadBlock (always 0 0) self0 1 4096 0
                                          (replicate 131072 CHR ''0'') 0))))) = 0"
    by (simp only: SDODownloadBlock_trace [OF zeros_hex len] last_snoc
        size_arg_block_call [OF len]) simp
  then show ?thesis by (simp add: zeros_hex)
qed

text \<open>
  C3, amended. For every non-empty string of even length of hexadecimal digits,
  \<open>SDODownloadBlock\<close> makes one foreign call, the block download of the decoded bytes
  (and the NUL of the string buffer), whose length argument is the number of decoded
  bytes, \<open>len(str_data)/2\<close>, as \<open>ct.c_uint16\<close> holds it: reduced modulo 65536, and so
  the exact number whenever that is below 65536.
\<close>

theorem SDODownloadBlock_length_argument:
  assumes "str_data \<noteq> []" and "even (length str_data)" and "list_all is_hex str_data"
  shows "trace (snd (SDODownloadBlock N self node index subindex str_data size')) =
           trace self @
             [canopen_sdo_download_block (sock self) (c_uint8 node) (c_uint16 index)
                (c_uint8 subindex) (map (byte_at str_data) [0 ..< length str_data div 2] @ [0])
                (c_uint16 (int (length str_data div 2 - 1) + 1))]
         \<and> unat (size_arg (last (trace (snd (SDODownloadBlock N self node index subindex
                                                  str_data size')))))
             = (length str_data div 2) mod 65536
         \<and> (length str_data div 2 < 65536 \<longrightarrow>
              unat (size_arg (last (trace (snd (SDODownloadBlock N self node index subindex
                                                  str_data size')))))
              = length str_data div 2)"
proof -
  let ?c = "block_call self node index subindex str_data"
  let ?t = "trace (snd (SDODownloadBlock N self node index subindex str_data size'))"
  have len: "2 \<le> length str_data"
    by (rule even_nonempty_length [OF assms(1,2)])
  have k: "length str_data div 2 - 1 + 1 = length str_data div 2" using len by simp
  have tr: "?t = trace self @ [?c]"
    by (simp add: SDODownloadBlock_hex [OF assms(3) len])
  have sa: "size_arg ?c = c_uint16 (int (length str_data div 2 - 1) + 1)"
    by (simp only: block_call_def size_arg.simps)
  have u: "unat (size_arg (last ?t)) = (length str_data div 2) mod 65536"
    by (simp only: tr last_snoc sa unat_c_uint16_Suc k)
  have c: "?c = canopen_sdo_download_block (sock self) (c_uint8 node) (c_uint16 index)
                (c_uint8 subindex) (map (byte_at str_data) [0 ..< length str_data div 2] @ [0])
                (c_uint16 (int (length str_data div 2 - 1) + 1))"
    by (simp only: block_call_def)
  show ?thesis
  proof (intro conjI impI)
    show "?t = trace self @
             [canopen_sdo_download_block (sock self) (c_uint8 node) (c_uint16 index)
                (c_uint8 subindex) (map (byte_at str_data) [0 ..< length str_data div 2] @ [0])
                (c_uint16 (int (length str_data div 2 - 1) + 1))]"
      using tr by (simp only: c)
    show "unat (size_arg (last ?t)) = length str_data div 2 mod 65536"
      by (rule u)
    assume "length str_data div 2 < 65536"
    then show "unat (size_arg (last ?t)) = length str_data div 2"
      by (simp only: u mod_less)
  qed
qed

theorem SDODownloadBlock_length_argument_witness:
  "''0aff'' \<noteq> [] \<and> even (length ''0aff'') \<and> list_all is_hex ''0aff''
   \<and> trace (snd (SDODownloadBlock (always 0 0) self0 1 4096 0 ''0aff'' 2))
       = [canopen_sdo_download_block (Some 3) 1 4096 0 [10, 255, 0] 2]"
proof -
  have a: "''0aff'' \<noteq> []" by simp
  have b: "even (length ''0aff'')" by simp
  have up: "[0 ..< length ''0aff'' div 2] = [0, 1]" by (simp add: upt_rec)
  show ?thesis
    using SDODownloadBlock_length_argument [OF a b hex_0aff, where N = "always 0 0"
        and self = self0 and node = 1 and index = 4096 and subindex = 0 and size' = 2]
    by (simp add: up self0_def byte_at_def is_hex_def digit_value_def c_uint8_def c_uint16_def)
qed

text \<open>
  C4, as the claim states it, fails: for the 131074 digits \<open>0\<close>, which decode to
  \<open>k = 65537\<close> bytes, \<open>SDODownloadSeg\<close> passes the size argument 0, not \<open>k - 1 = 65536\<close>.
\<close>

theorem SDODownloadSeg_size_wraps:
  "replicate 131074 CHR ''0'' \<noteq> []
   \<and> even (length (replicate 131074 CHR ''0''))
   \<and> list_all is_hex (replicate 131074 CHR ''0'')
   \<and> length (replicate 131074 CHR ''0'') div 2 - 1 = 65536
   \<and> unat (size_arg (last (trace (snd (SDODownloadSeg (always 0 0) self0 1 4096 0
                                          (replicate 131074 CHR ''0'') 0))))) = 0"
proof -
  have len: "2 \<le> length (replicate 131074 CHR ''0'')" by simp
  have "unat (size_arg (last (trace (snd (SDODownloadSeg (always 0 0) self0 1 4096 0
                                          (replicate 131074 CHR ''0'') 0))))) = 0"
    by (simp only: SDODownloadSeg_trace [OF zeros_hex len] last_snoc size_arg_seg_call) simp
  then show ?thesis by (simp add: zeros_hex)
qed

text \<open>
  C4, amended. For every non-empty string of even length of hexadecimal digits with
  \<open>k = len(str_data)/2\<close> decoded bytes, \<open>SDODownloadSeg\<close> makes one foreign call, the
  segmented download of the decoded bytes, whose size argument is the last value of the
  comprehension variable \<open>n\<close>, \<open>k - 1\<close>, as \<open>ct.c_uint16\<close> holds it: reduced modulo
  65536, and so exactly \<open>k - 1\<close> whenever \<open>k \<le> 65536\<close>.
\<close>

theorem SDODownloadSeg_size_argument:
  assumes "str_data \<noteq> []" and "even (length str_data)" and "list_all is_hex str_data"
  shows "trace (snd (SDODownloadSeg N self node index subindex str_data size')) =
           trace self @
             [canopen_sdo_download_seg (sock self) (c_uint8 node) (c_uint16 index)
                (c_uint8 subindex) (map (byte_at str_data) [0 ..< length str_data div 2] @ [0])
                (c_uint16 (int (length str_data div 2 - 1)))]
         \<and> unat (size_arg (last (trace (snd (SDODownloadSeg N self node index subindex
                                                  str_data size')))))
             = (length str_data div 2 - 1) mod 65536
         \<and> (length str_data div 2 \<le> 65536 \<longrightarrow>
              unat (size_arg (last (trace (snd (SDODownloadSeg N self node index subindex
                                                  str_data size')))))
              = length str_data div 2 - 1)"
proof -
  let ?c = "seg_call self node index subindex str_data"
  let ?t = "trace (snd (SDODownloadSeg N self node index subindex str_data size'))"
  have len: "2 \<le> length str_data"
    by (rule even_nonempty_length [OF assms(1,2)])
  have tr: "?t = trace self @ [?c]"
    by (simp add: SDODownloadSeg_hex [OF assms(3) len])
  have sa: "size_arg ?c = c_uint16 (int (length str_data div 2 - 1))"
    by (simp only: seg_call_def size_arg.simps)
  have u: "unat (size_arg (last ?t)) = (length str_data div 2 - 1) mod 65536"
    by (simp only: tr last_snoc sa unat_c_uint16_nat)
  have small: "length str_data div 2 \<le> 65536 \<longrightarrow>
                 (length str_data div 2 - 1) mod 65536 = length str_data div 2 - 1"
    using len by auto
  have c: "?c = canopen_sdo_download_seg (sock self) (c_uint8 node) (c_uint16 index)
                (c_uint8 subindex) (map (byte_at str_data) [0 ..< length str_data div 2] @ [0])
                (c_uint16 (int (length str_data div 2 - 1)))"
    by (simp only: seg_call_def)
  show ?thesis
  proof (intro conjI impI)
    show "?t = trace self @
             [canopen_sdo_download_seg (sock self) (c_uint8 node) (c_uint16 index)
                (c_uint8 subindex) (map (byte_at str_data) [0 ..< length str_data div 2] @ [0])
                (c_uint16 (int (length str_data div 2 - 1)))]"
      using tr by (simp only: c)
    show "unat (size_arg (last ?t)) = (length str_data div 2 - 1) mod 65536"
      by (rule u)
    assume "length str_data div 2 \<le> 65536"
    with small show "unat (size_arg (last ?t)) = length str_data div 2 - 1"
      by (simp only: u)
  qed
qed

theorem SDODownloadSeg_size_argument_witness:
  "''0aff'' \<noteq> [] \<and> even (length ''0aff'') \<and> list_all is_hex ''0aff''
   \<and> trace (snd (SDODownloadSeg (always 0 0) self0 1 4096 0 ''0aff'' 2))
       = [canopen_sdo_download_seg (Some 3) 1 4096 0 [10, 255, 0] 1]"
proof -
  have a: "''0aff'' \<noteq> []" by simp
  have b: "even (length ''0aff'')" by simp
  have up: "[0 ..< length ''0aff'' div 2] = [0, 1]" by (simp add: upt_rec)
  show ?thesis
    using SDODownloadSeg_size_argument [OF a b hex_0aff, where N = "always 0 0" and self = self0
        and node = 1 and index = 4096 and subindex = 0 and size' = 2]
    by (simp add: up self0_def byte_at_def is_hex_def digit_value_def c_uint8_def c_uint16_def)
qed

end
